theory Spec2Isabelle
  imports Main "HOL-Library.Sublist" "HOL-Library.Word"
begin

section \<open>Python strings\<close>

text \<open>
  A Python \<open>str\<close> is a sequence of code points. Paths, tool names and request parameters
  are modelled as \<open>string\<close>, whose characters are the code points below 256; the text
  decoded from a file can hold any code point and is a list of naturals (\<open>codepoints\<close>).
  \<open>embed\<close> reads a \<open>string\<close> as such a list.
\<close>

type_synonym codepoints = "nat list"

definition embed :: "string \<Rightarrow> codepoints" where
  "embed s = map of_char s"

text \<open>
  \<open>str.lower\<close> on the code points below 256: the ASCII capitals and the Latin-1 capitals
  \<open>0xC0 .. 0xDE\<close> (without the multiplication sign \<open>0xD7\<close>) move up by 32, every other
  code point stays.
\<close>

definition lower_char :: "char \<Rightarrow> char" where
  "lower_char c =
     (let n = (of_char c :: nat)
      in if (65 \<le> n \<and> n \<le> 90) \<or> (192 \<le> n \<and> n \<le> 222 \<and> n \<noteq> 215)
         then char_of (n + 32) else c)"

definition lower :: "string \<Rightarrow> string" where
  "lower s = map lower_char s"

text \<open>
  \<open>startswith s p\<close> is Python's \<open>s.startswith(p)\<close>: the first \<open>len(p)\<close> characters of
  \<open>s\<close> are \<open>p\<close>.
\<close>

definition startswith :: "string \<Rightarrow> string \<Rightarrow> bool" where
  "startswith s p = (take (length p) s = p)"

definition endswith :: "string \<Rightarrow> string \<Rightarrow> bool" where
  "endswith s p = (length p \<le> length s \<and> drop (length s - length p) s = p)"

text \<open>
  \<open>split sep s\<close> is \<open>s.split(sep)\<close> for a one-character separator: every occurrence of
  the separator ends a piece, so that \<open>n\<close> separators give \<open>n + 1\<close> pieces, empty ones
  included. \<open>join sep ws\<close> is \<open>sep.join(ws)\<close> and \<open>rstrip c s\<close> is \<open>s.rstrip(c)\<close>.
\<close>

fun split :: "char \<Rightarrow> string \<Rightarrow> string list" where
  "split sep [] = [[]]"
| "split sep (c # cs) =
     (let ws = split sep cs in if c = sep then [] # ws else (c # hd ws) # tl ws)"

fun join :: "string \<Rightarrow> string list \<Rightarrow> string" where
  "join sep [] = []"
| "join sep [w] = w"
| "join sep (w # ws) = w @ sep @ join sep ws"

definition rstrip :: "char \<Rightarrow> string \<Rightarrow> string" where
  "rstrip c s = rev (dropWhile (\<lambda>x. x = c) (rev s))"

text \<open>\<open>str_int i\<close> is \<open>str(i)\<close>, the decimal numeral of a Python integer.\<close>

fun str_nat :: "nat \<Rightarrow> string" where
  "str_nat n =
     (if n < 10 then [char_of (48 + n)] else str_nat (n div 10) @ [char_of (48 + n mod 10)])"

declare str_nat.simps [simp del]

definition str_int :: "int \<Rightarrow> string" where
  "str_int i = (if i < 0 then ''-'' @ str_nat (nat (- i)) else str_nat (nat i))"

text \<open>
  \<open>count s sub\<close> is Python's \<open>s.count(sub)\<close>: the number of non-overlapping occurrences
  of \<open>sub\<close> found scanning from the left; the empty \<open>sub\<close> occurs \<open>len(s) + 1\<close> times.
\<close>

function count :: "string \<Rightarrow> string \<Rightarrow> nat" where
  "count s sub =
     (if sub = [] then length s + 1
      else if length s < length sub then 0
      else if startswith s sub then 1 + count (drop (length sub) s) sub
      else count (tl s) sub)"
  by pat_completeness auto
termination
  by (relation "measure (\<lambda>(s, sub). length s)") (auto simp: neq_Nil_conv)

declare count.simps [simp del]

section \<open>The character counter (main.py, count_r)\<close>

definition count_r :: "string \<Rightarrow> int" where
  "count_r t = int (count (lower t) ''r'')"

section \<open>The platform: os.path, the environment and the filesystem\<close>

text \<open>
  \<^verbatim>\<open>main.py\<close> reaches the operating system through \<open>os.path\<close> and \<open>open\<close>. The record
  \<open>host\<close> holds these library operations, so that the functions of \<^verbatim>\<open>main.py\<close> are
  modelled for every platform; \<open>posix_host\<close> below is their POSIX implementation
  (\<open>posixpath\<close>), used wherever a concrete input is evaluated.
  \<open>read_bytes\<close> gives the bytes of a regular file, and \<open>home_child name\<close> is
  \<open>str(Path.home() / name)\<close>.
\<close>

type_synonym byte = "8 word"

record host =
  expandvars :: "string \<Rightarrow> string"
  isabs :: "string \<Rightarrow> bool"
  abspath :: "string \<Rightarrow> string"
  normpath :: "string \<Rightarrow> string"
  expanduser :: "string \<Rightarrow> string"
  exists :: "string \<Rightarrow> bool"
  isfile :: "string \<Rightarrow> bool"
  read_bytes :: "string \<Rightarrow> byte list"
  home_child :: "string \<Rightarrow> string"

subsection \<open>posixpath\<close>

text \<open>
  A POSIX process: its environment, its working directory, the password database (the
  home directory of the current user, \<open>None\<close> when the user has no entry, and those of
  named users), the files by absolute normalized path, and \<open>str(Path.home())\<close>.
\<close>

datatype node = Directory | Regular "byte list"

record posix =
  environ :: "string \<rightharpoonup> string"
  cwd :: string
  pw_dir :: "string option"
  pw_named :: "string \<rightharpoonup> string"
  files :: "string \<rightharpoonup> node"
  path_home :: string

definition posix_isabs :: "string \<Rightarrow> bool" where
  "posix_isabs s = startswith s ''/''"

definition posix_join :: "string \<Rightarrow> string \<Rightarrow> string" where
  "posix_join a b =
     (if startswith b ''/'' then b
      else if a = [] \<or> endswith a ''/'' then a @ b
      else a @ ''/'' @ b)"

text \<open>
  \<open>posixpath.normpath\<close>: the loop body over the components, then the function. One or
  two leading slashes are kept, three or more become one.
\<close>

definition normpath_step :: "bool \<Rightarrow> string list \<Rightarrow> string \<Rightarrow> string list" where
  "normpath_step initial_slashes new_comps component =
     (if component = [] \<or> component = ''.'' then new_comps
      else if component \<noteq> ''..'' \<or> (\<not> initial_slashes \<and> new_comps = [])
              \<or> (new_comps \<noteq> [] \<and> last new_comps = ''..'')
      then new_comps @ [component]
      else if new_comps \<noteq> [] then butlast new_comps
      else new_comps)"

definition posix_normpath :: "string \<Rightarrow> string" where
  "posix_normpath path =
     (if path = [] then ''.''
      else
        let initial_slashes =
              (if \<not> startswith path ''/'' then 0
               else if startswith path ''//'' \<and> \<not> startswith path ''///'' then 2
               else (1 :: nat));
            comps = foldl (normpath_step (initial_slashes \<noteq> 0)) [] (split CHR ''/'' path);
            joined = replicate initial_slashes CHR ''/'' @ join ''/'' comps
        in if joined = [] then ''.'' else joined)"

text \<open>
  The component lists that \<open>posixpath.normpath\<close> produces: no component is empty, is
  \<open>.\<close> or holds a slash, and \<open>..\<close> occurs only at the front of a relative path
  (\<open>b\<close> tells whether the path is absolute).
\<close>

definition dotdot :: string where
  "dotdot = ''..''"

definition comps_ok :: "bool \<Rightarrow> string list \<Rightarrow> bool" where
  "comps_ok b cs =
     ((\<forall>c\<in>set cs. c \<noteq> [] \<and> c \<noteq> ''.'' \<and> CHR ''/'' \<notin> set c)
      \<and> dotdot \<notin> set (if b then cs else dropWhile (\<lambda>c. c = dotdot) cs))"

definition posix_abspath :: "posix \<Rightarrow> string \<Rightarrow> string" where
  "posix_abspath st path =
     posix_normpath (if \<not> posix_isabs path then posix_join (cwd st) path else path)"

text \<open>
  \<open>posixpath.expandvars\<close> replaces \<open>$name\<close> and \<open>${name}\<close> from left to right, where the
  pattern is \<^verbatim>\<open>\$(\w+|\{[^}]*\})\<close> on ASCII word characters. A variable that is not set
  stays as written, and the text put in for a variable is not scanned again.
  \<open>match_var cs\<close> matches the pattern's group at the start of \<open>cs\<close> and gives the name
  with the number of characters matched.
\<close>

definition is_word_char :: "char \<Rightarrow> bool" where
  "is_word_char c =
     (let n = (of_char c :: nat)
      in (48 \<le> n \<and> n \<le> 57) \<or> (65 \<le> n \<and> n \<le> 90) \<or> n = 95 \<or> (97 \<le> n \<and> n \<le> 122))"

definition match_var :: "string \<Rightarrow> (string \<times> nat) option" where
  "match_var cs =
     (case cs of
        [] \<Rightarrow> None
      | c # r \<Rightarrow>
          if is_word_char c
          then (let name = takeWhile is_word_char cs in Some (name, length name))
          else if c = CHR ''{'' \<and> CHR ''}'' \<in> set r
          then (let name = takeWhile (\<lambda>x. x \<noteq> CHR ''}'') r in Some (name, length name + 2))
          else None)"

function posix_expandvars :: "(string \<rightharpoonup> string) \<Rightarrow> string \<Rightarrow> string" where
  "posix_expandvars env [] = []"
| "posix_expandvars env (c # cs) =
     (if c \<noteq> CHR ''$'' then c # posix_expandvars env cs
      else case match_var cs of
             None \<Rightarrow> c # posix_expandvars env cs
           | Some (name, n) \<Rightarrow>
               (case env name of
                  None \<Rightarrow> c # take n cs @ posix_expandvars env (drop n cs)
                | Some v \<Rightarrow> v @ posix_expandvars env (drop n cs)))"
  by pat_completeness auto
termination
  by (relation "measure (\<lambda>(env, s). length s)") auto

text \<open>
  \<open>posixpath.expanduser\<close>: a leading \<open>~\<close> becomes \<open>$HOME\<close>, or the password database's
  entry when \<open>HOME\<close> is not set, and \<open>~user\<close> that user's entry; trailing slashes of the
  home directory are dropped, and the path is returned unchanged when there is no entry.
\<close>

definition posix_expanduser :: "posix \<Rightarrow> string \<Rightarrow> string" where
  "posix_expanduser st path =
     (if \<not> startswith path ''~'' then path
      else
        let i = length (takeWhile (\<lambda>x. x \<noteq> CHR ''/'') path);
            found =
              (if i = 1
               then (case environ st ''HOME'' of None \<Rightarrow> pw_dir st | Some v \<Rightarrow> Some v)
               else pw_named st (take (i - 1) (drop 1 path)))
        in case found of
             None \<Rightarrow> path
           | Some userhome \<Rightarrow>
               (let expanded = rstrip CHR ''/'' userhome @ drop i path
                in if expanded = [] then ''/'' else expanded))"

definition posix_exists :: "posix \<Rightarrow> string \<Rightarrow> bool" where
  "posix_exists st path = (case files st path of None \<Rightarrow> False | Some n \<Rightarrow> True)"

definition posix_isfile :: "posix \<Rightarrow> string \<Rightarrow> bool" where
  "posix_isfile st path = (case files st path of Some (Regular bs) \<Rightarrow> True | _ \<Rightarrow> False)"

definition posix_read_bytes :: "posix \<Rightarrow> string \<Rightarrow> byte list" where
  "posix_read_bytes st path = (case files st path of Some (Regular bs) \<Rightarrow> bs | _ \<Rightarrow> [])"

definition posix_home_child :: "posix \<Rightarrow> string \<Rightarrow> string" where
  "posix_home_child st name =
     (if endswith (path_home st) ''/'' then path_home st @ name
      else path_home st @ ''/'' @ name)"

definition posix_host :: "posix \<Rightarrow> host" where
  "posix_host st =
     \<lparr> expandvars = posix_expandvars (environ st),
       isabs = posix_isabs,
       abspath = posix_abspath st,
       normpath = posix_normpath,
       expanduser = posix_expanduser st,
       exists = posix_exists st,
       isfile = posix_isfile st,
       read_bytes = posix_read_bytes st,
       home_child = posix_home_child st \<rparr>"

section \<open>Reading text: the codecs and universal newlines\<close>

text \<open>
  \<open>open(path, 'r', encoding=e).read()\<close> decodes the bytes of the file with the codec
  \<open>e\<close>, raising \<open>UnicodeDecodeError\<close> (here \<open>None\<close>) on bytes the codec does not accept,
  and then turns every \<open>\r\n\<close> and every single \<open>\r\<close> into \<open>\n\<close>.
  Every regular file of the model can be opened; permission errors are not modelled.
\<close>

datatype encoding = Utf8 | Latin1 | Cp1252

definition continuation :: "byte \<Rightarrow> bool" where
  "continuation b = (0x80 \<le> unat b \<and> unat b \<le> 0xBF)"

text \<open>
  The second byte of a sequence is narrowed after the lead bytes \<open>E0\<close>, \<open>ED\<close>, \<open>F0\<close> and
  \<open>F4\<close>, which excludes overlong forms, surrogates and code points above \<open>10FFFF\<close>.
\<close>

definition second_ok :: "nat \<Rightarrow> byte \<Rightarrow> bool" where
  "second_ok n0 b1 =
     (let n1 = unat b1
      in if n0 = 0xE0 then 0xA0 \<le> n1 \<and> n1 \<le> 0xBF
         else if n0 = 0xED then 0x80 \<le> n1 \<and> n1 \<le> 0x9F
         else if n0 = 0xF0 then 0x90 \<le> n1 \<and> n1 \<le> 0xBF
         else if n0 = 0xF4 then 0x80 \<le> n1 \<and> n1 \<le> 0x8F
         else 0x80 \<le> n1 \<and> n1 \<le> 0xBF)"

fun decode_utf8 :: "byte list \<Rightarrow> codepoints option" where
  "decode_utf8 [] = Some []"
| "decode_utf8 (b0 # bs) =
     (let n0 = unat b0
      in if n0 < 0x80 then map_option (Cons n0) (decode_utf8 bs)
         else if 0xC2 \<le> n0 \<and> n0 \<le> 0xDF then
           (case bs of
              b1 # r \<Rightarrow>
                if continuation b1
                then map_option (Cons ((n0 - 0xC0) * 0x40 + (unat b1 - 0x80))) (decode_utf8 r)
                else None
            | _ \<Rightarrow> None)
         else if 0xE0 \<le> n0 \<and> n0 \<le> 0xEF then
           (case bs of
              b1 # b2 # r \<Rightarrow>
                if second_ok n0 b1 \<and> continuation b2
                then map_option
                       (Cons ((n0 - 0xE0) * 0x1000 + (unat b1 - 0x80) * 0x40 + (unat b2 - 0x80)))
                       (decode_utf8 r)
                else None
            | _ \<Rightarrow> None)
         else if 0xF0 \<le> n0 \<and> n0 \<le> 0xF4 then
           (case bs of
              b1 # b2 # b3 # r \<Rightarrow>
                if second_ok n0 b1 \<and> continuation b2 \<and> continuation b3
                then map_option
                       (Cons ((n0 - 0xF0) * 0x40000 + (unat b1 - 0x80) * 0x1000
                              + (unat b2 - 0x80) * 0x40 + (unat b3 - 0x80)))
                       (decode_utf8 r)
                else None
            | _ \<Rightarrow> None)
         else None)"

definition decode_latin1 :: "byte list \<Rightarrow> codepoints option" where
  "decode_latin1 bs = Some (map unat bs)"

text \<open>
  Windows-1252 is Latin-1 outside \<open>80 .. 9F\<close>; in that range it has its own table, and
  the bytes \<open>81\<close>, \<open>8D\<close>, \<open>8F\<close>, \<open>90\<close> and \<open>9D\<close> are not assigned.
\<close>

definition cp1252_table :: "(nat \<times> nat) list" where
  "cp1252_table =
     [(0x80, 0x20AC), (0x82, 0x201A), (0x83, 0x0192), (0x84, 0x201E), (0x85, 0x2026),
      (0x86, 0x2020), (0x87, 0x2021), (0x88, 0x02C6), (0x89, 0x2030), (0x8A, 0x0160),
      (0x8B, 0x2039), (0x8C, 0x0152), (0x8E, 0x017D), (0x91, 0x2018), (0x92, 0x2019),
      (0x93, 0x201C), (0x94, 0x201D), (0x95, 0x2022), (0x96, 0x2013), (0x97, 0x2014),
      (0x98, 0x02DC), (0x99, 0x2122), (0x9A, 0x0161), (0x9B, 0x203A), (0x9C, 0x0153),
      (0x9E, 0x017E), (0x9F, 0x0178)]"

definition cp1252_char :: "byte \<Rightarrow> nat option" where
  "cp1252_char b =
     (let n = unat b in if n < 0x80 \<or> 0xA0 \<le> n then Some n else map_of cp1252_table n)"

definition decode_cp1252 :: "byte list \<Rightarrow> codepoints option" where
  "decode_cp1252 bs = those (map cp1252_char bs)"

fun decode :: "encoding \<Rightarrow> byte list \<Rightarrow> codepoints option" where
  "decode Utf8 bs = decode_utf8 bs"
| "decode Latin1 bs = decode_latin1 bs"
| "decode Cp1252 bs = decode_cp1252 bs"

fun universal_newlines :: "codepoints \<Rightarrow> codepoints" where
  "universal_newlines [] = []"
| "universal_newlines [c] = [if c = 13 then 10 else c]"
| "universal_newlines (c # d # r) =
     (if c = 13 \<and> d = 10 then 10 # universal_newlines r
      else if c = 13 then 10 # universal_newlines (d # r)
      else c # universal_newlines (d # r))"

definition open_read :: "encoding \<Rightarrow> byte list \<Rightarrow> codepoints option" where
  "open_read e bs = map_option universal_newlines (decode e bs)"

section \<open>main.py\<close>

datatype http_exception = HTTPException (status_code: nat) (detail: string)

subsection \<open>normalize_path\<close>

definition allowed_dirs :: "host \<Rightarrow> string list" where
  "allowed_dirs h =
     [expanduser h ''~/Documents'', expanduser h ''~/Downloads'',
      expanduser h ''~/Desktop'', expanduser h ''~/github'']"

definition normalize_path :: "host \<Rightarrow> string \<Rightarrow> http_exception + string" where
  "normalize_path h file_path =
     (let file_path = expandvars h file_path;
          file_path = (if \<not> isabs h file_path then abspath h file_path else file_path);
          file_path = normpath h file_path
      in if \<not> list_ex (\<lambda>d. startswith file_path d) (allowed_dirs h)
         then Inl (HTTPException 403
                ''File must be in Documents, Downloads, Desktop, or github directory'')
         else Inr file_path)"

subsection \<open>read_file\<close>

text \<open>
  \<open>read_file\<close> calls \<open>is_path_allowed(abs_path)\<close>, a name that \<^verbatim>\<open>main.py\<close> neither defines
  nor imports. \<open>is_path_allowed\<close> is what the module's namespace holds under that name:
  nothing. Looking the name up raises \<open>NameError\<close>, which the handler
  \<open>except Exception\<close> of \<open>read_file\<close> turns into status 500.
  \<open>read_file_with\<close> is the body of \<open>read_file\<close> for any binding of the name, so that the
  rest of the body can be stated for a module that defines it.
\<close>

definition is_path_allowed :: "(string \<Rightarrow> bool) option" where
  "is_path_allowed = None"

definition ALLOWED_BASE_DIRS :: "host \<Rightarrow> string list" where
  "ALLOWED_BASE_DIRS h =
     [home_child h ''Documents'', home_child h ''Downloads'',
      home_child h ''Desktop'', home_child h ''github'']"

definition newline :: string where
  "newline = [CHR 0x0A]"

definition name_error :: "string \<Rightarrow> string" where
  "name_error name = ''name '' @ [CHR 0x27] @ name @ [CHR 0x27] @ '' is not defined''"

definition encodings :: "encoding list" where
  "encodings = [Utf8, Latin1, Cp1252]"

fun try_encodings :: "encoding list \<Rightarrow> byte list \<Rightarrow> (encoding \<times> codepoints) option" where
  "try_encodings [] bs = None"
| "try_encodings (e # es) bs =
     (case open_read e bs of
        Some content \<Rightarrow> Some (e, content)
      | None \<Rightarrow> try_encodings es bs)"

definition read_file_with ::
  "(string \<Rightarrow> bool) option \<Rightarrow> host \<Rightarrow> string \<Rightarrow> http_exception + codepoints" where
  "read_file_with binding h raw_path =
     (case normalize_path h raw_path of
        Inl e \<Rightarrow> Inl e
      | Inr file_path \<Rightarrow>
          let abs_path = abspath h file_path
          in (case binding of
               None \<Rightarrow>
                 Inl (HTTPException 500
                   (''Error reading file '' @ file_path @ '': '' @ name_error ''is_path_allowed''))
             | Some allowed \<Rightarrow>
                 if \<not> allowed abs_path then
                   Inl (HTTPException 403
                     (''Access to '' @ file_path
                      @ '' is not allowed. File must be in one of these directories:'' @ newline
                      @ join newline (ALLOWED_BASE_DIRS h)))
                 else if \<not> exists h abs_path then
                   Inl (HTTPException 404
                     (''File not found: '' @ file_path @ newline @ ''Please check:'' @ newline
                      @ ''1. The file exists'' @ newline @ ''2. The path is correct'' @ newline
                      @ ''3. You have permission to access it''))
                 else if \<not> isfile h abs_path then
                   Inl (HTTPException 400 (''Path is not a file: '' @ file_path))
                 else
                   (case try_encodings encodings (read_bytes h abs_path) of
                      Some (e, content) \<Rightarrow> Inr content
                    | None \<Rightarrow>
                        Inl (HTTPException 400
                          (''Could not read file '' @ file_path
                           @ '' with any of the supported encodings'')))))"

definition read_file :: "host \<Rightarrow> string \<Rightarrow> http_exception + codepoints" where
  "read_file h file_path = read_file_with is_path_allowed h file_path"

subsection \<open>execute_tool\<close>

text \<open>
  \<open>falsy v\<close> is \<open>not v\<close> for the result of \<open>parameters.get(key)\<close>: the key is missing
  (\<open>None\<close>) or its value is the empty string. An \<open>HTTPException\<close> of \<open>read_file\<close> is
  raised again unchanged; nothing in the body raises any other exception, so the
  handler \<open>except Exception\<close> of the endpoint has no branch here.
\<close>

record AgentResponse =
  response :: codepoints
  metadata :: "(string \<times> string) list"

definition falsy :: "string option \<Rightarrow> bool" where
  "falsy v = (case v of None \<Rightarrow> True | Some s \<Rightarrow> s = [])"

definition execute_tool ::
  "host \<Rightarrow> string \<Rightarrow> (string \<rightharpoonup> string) \<Rightarrow> http_exception + AgentResponse" where
  "execute_tool h tool_name parameters =
     (if tool_name = ''read_file'' then
        (let file_path = parameters ''file_path''
         in if falsy file_path
            then Inl (HTTPException 400 ''file_path parameter is required'')
            else case read_file h (the file_path) of
                   Inl e \<Rightarrow> Inl e
                 | Inr result \<Rightarrow>
                     Inr \<lparr> response = result,
                           metadata = [(''status'', ''success''), (''tool'', ''read_file'')] \<rparr>)
      else if tool_name = ''count_r'' then
        (let t = parameters ''text''
         in if falsy t
            then Inl (HTTPException 400 ''text parameter is required'')
            else Inr \<lparr> response = embed (str_int (count_r (the t))),
                       metadata = [(''status'', ''success''), (''tool'', ''count_r'')] \<rparr>)
      else Inl (HTTPException 404 (''Tool not found: '' @ tool_name)))"

section \<open>agent.py\<close>

text \<open>
  \<open>MCPAgent.__init__\<close> reads the credential with \<open>os.getenv\<close>, raises \<open>ValueError\<close> when
  the value is \<open>None\<close> or empty, and otherwise stores it in the agent and in the module
  variable \<open>openai.api_key\<close>; the result is the agent together with that variable.
\<close>

datatype agent_exception = ValueError string | Exception string

record MCPAgent =
  api_key :: string

definition MCPAgent_init :: "(string \<rightharpoonup> string) \<Rightarrow> agent_exception + (MCPAgent \<times> string)" where
  "MCPAgent_init env =
     (let key = env ''OPENAI_API_KEY''
      in if falsy key
         then Inl (ValueError ''OPENAI_API_KEY environment variable not set'')
         else Inr (\<lparr> api_key = the key \<rparr>, the key))"

text \<open>
  \<open>MCPAgent.process\<close> builds the messages (one system message for each context string,
  then the prompt as the user message) and calls the hosted model. \<open>acreate\<close> stands for
  that call and for reading \<open>response.choices[0].message.content\<close>: it gives the
  content, or the text of whatever exception was raised on the way, which \<open>process\<close>
  wraps in a plain \<open>Exception\<close>. \<open>Default\<close> is the literal default of a setting (0.7 for
  the temperature, 1000 for the token limit).
\<close>

datatype 'v setting = Default | Given 'v

datatype 'v chat_request =
  ChatCompletion (model: string) (messages: "(string \<times> string) list")
    (temperature: "'v setting") (max_tokens: "'v setting")

definition setting_of :: "(string \<rightharpoonup> 'v) option \<Rightarrow> string \<Rightarrow> 'v setting" where
  "setting_of parameters key =
     (case parameters of
        None \<Rightarrow> Default
      | Some m \<Rightarrow> (case m key of None \<Rightarrow> Default | Some v \<Rightarrow> Given v))"

definition process ::
  "('v chat_request \<Rightarrow> string + string) \<Rightarrow> MCPAgent \<Rightarrow> string \<Rightarrow> string list option
   \<Rightarrow> (string \<rightharpoonup> 'v) option \<Rightarrow> agent_exception + string" where
  "process acreate self prompt context parameters =
     (let system =
            (case context of
               None \<Rightarrow> []
             | Some ctxs \<Rightarrow> map (\<lambda>ctx. (''system'', ctx)) ctxs);
          messages = system @ [(''user'', prompt)]
      in case acreate (ChatCompletion ''gpt-3.5-turbo'' messages
                (setting_of parameters ''temperature'')
                (setting_of parameters ''max_tokens'')) of
           Inl e \<Rightarrow> Inl (Exception (''Error processing request: '' @ e))
         | Inr content \<Rightarrow> Inr content)"

section \<open>Starting the server (main.py)\<close>

text \<open>
  What running \<^verbatim>\<open>main.py\<close> does before it serves requests. At import \<open>load_dotenv()\<close>
  adds the variables of the \<^verbatim>\<open>.env\<close> file that the environment does not set yet. The
  main block then probes at most five ports from 8081 upwards, exits with status 1
  when all are in use, and otherwise serves on the first free one. Neither step
  imports \<^verbatim>\<open>agent.py\<close> or constructs an \<open>MCPAgent\<close>.
\<close>

definition load_dotenv :: "(string \<rightharpoonup> string) \<Rightarrow> (string \<rightharpoonup> string) \<Rightarrow> (string \<rightharpoonup> string)" where
  "load_dotenv dotenv env = dotenv ++ env"

fun find_port :: "(nat \<Rightarrow> bool) \<Rightarrow> nat \<Rightarrow> nat \<Rightarrow> nat option" where
  "find_port is_port_in_use 0 port = None"
| "find_port is_port_in_use (Suc attempts) port =
     (if \<not> is_port_in_use port then Some port
      else find_port is_port_in_use attempts (port + 1))"

datatype startup_result = SystemExit nat | Serving nat "string \<rightharpoonup> string"

definition startup ::
  "(string \<rightharpoonup> string) \<Rightarrow> (string \<rightharpoonup> string) \<Rightarrow> (nat \<Rightarrow> bool) \<Rightarrow> startup_result" where
  "startup env dotenv is_port_in_use =
     (let env = load_dotenv dotenv env
      in case find_port is_port_in_use 5 8081 of
           None \<Rightarrow> SystemExit 1
         | Some port \<Rightarrow> Serving port env)"

section \<open>The validator as specified\<close>

text \<open>
  The normalized form of a raw path, following the words of the specification (section
  4.1, steps 1 to 3): expand the environment variables, make the result absolute when it
  is not, and normalize it lexically.
\<close>

definition normal_form :: "host \<Rightarrow> string \<Rightarrow> string" where
  "normal_form h raw_path =
     (let expanded = expandvars h raw_path;
          absolute = (if isabs h expanded then expanded else abspath h expanded)
      in normpath h absolute)"

text \<open>
  The validator of the specification on a POSIX process (section 4.1, steps 1 to 4),
  with the allowed directories as its second argument: expand the environment
  variables, resolve the result against the working directory when it is not absolute,
  normalize it, and accept it when an allowed directory is a prefix of it.
\<close>

definition validate :: "posix \<Rightarrow> string \<Rightarrow> string list \<Rightarrow> http_exception + string" where
  "validate st raw_path allowed =
     (let expanded = posix_expandvars (environ st) raw_path;
          absolute =
            (if posix_isabs expanded then expanded else posix_join (cwd st) expanded);
          normalized = posix_normpath absolute
      in if list_ex (\<lambda>d. startswith normalized d) allowed
         then Inr normalized
         else Inl (HTTPException 403
                ''File must be in Documents, Downloads, Desktop, or github directory''))"

section \<open>A concrete process\<close>

text \<open>
  A POSIX process of a user whose home directory is \<open>/home/user\<close>, started in a checkout
  under \<open>~/github\<close>. \<open>notes.txt\<close> holds the ASCII text \<open>River\<close> and a line feed.
\<close>

definition demo :: posix where
  "demo =
     \<lparr> environ = [''HOME'' \<mapsto> ''/home/user'', ''PROJECTS'' \<mapsto> ''/home/user/github''],
       cwd = ''/home/user/github/mcp-demo'',
       pw_dir = Some ''/home/user'',
       pw_named = Map.empty,
       files = [''/home/user/Documents'' \<mapsto> Directory,
                ''/home/user/Documents/notes.txt''
                  \<mapsto> Regular [0x52, 0x69, 0x76, 0x65, 0x72, 0x0A],
                ''/home/user/Documents2/secret.txt'' \<mapsto> Regular [0x6B, 0x65, 0x79],
                ''/home/user/github/mcp-demo/main.py'' \<mapsto> Regular [0xE9, 0x0D, 0x0A]],
       path_home = ''/home/user'' \<rparr>"

definition demo_host :: host where
  "demo_host = posix_host demo"

text \<open>
  The same user with a variable \<open>REPO\<close>, and a user whose \<open>HOME\<close> is written with a
  doubled slash.
\<close>

definition demo_repo :: posix where
  "demo_repo =
     \<lparr> environ = [''HOME'' \<mapsto> ''/home/user'', ''REPO'' \<mapsto> ''mcp-demo''],
       cwd = ''/home/user/github/mcp-demo'',
       pw_dir = Some ''/home/user'',
       pw_named = Map.empty,
       files = Map.empty,
       path_home = ''/home/user'' \<rparr>"


definition no_port_in_use :: "nat \<Rightarrow> bool" where
  "no_port_in_use port = False"

definition empty_key_env :: "string \<rightharpoonup> string" where
  "empty_key_env = [''OPENAI_API_KEY'' \<mapsto> '''']"

definition unset_env :: "string \<rightharpoonup> string" where
  "unset_env = Map.empty"

definition key_env :: "string \<rightharpoonup> string" where
  "key_env = [''OPENAI_API_KEY'' \<mapsto> ''sk-test'']"

definition empty_path_request :: "string \<rightharpoonup> string" where
  "empty_path_request = [''file_path'' \<mapsto> '''']"

definition empty_text_request :: "string \<rightharpoonup> string" where
  "empty_text_request = [''text'' \<mapsto> '''']"

section \<open>Properties of the character counter\<close>

lemma count_single: "count s [c] = length (filter (\<lambda>x. x = c) s)"
proof (induction s)
  case Nil
  show ?case by (simp add: count.simps [of "[]"])
next
  case (Cons a s)
  show ?case
  proof (cases "a = c")
    case True
    then show ?thesis
      using Cons.IH by (simp add: count.simps [of "c # s"] startswith_def)
  next
    case False
    then show ?thesis
      using Cons.IH by (simp add: count.simps [of "a # s"] startswith_def)
  qed
qed

lemma count_r_filter: "count_r t = int (length (filter (\<lambda>x. x = CHR ''r'') (lower t)))"
  by (simp add: count_r_def count_single)

lemma lower_char_eq_r: "lower_char c = CHR ''r'' \<longleftrightarrow> c = CHR ''r'' \<or> c = CHR ''R''"
proof
  assume h: "lower_char c = CHR ''r''"
  show "c = CHR ''r'' \<or> c = CHR ''R''"
  proof (cases "(65 \<le> (of_char c :: nat) \<and> (of_char c :: nat) \<le> 90)
      \<or> (192 \<le> (of_char c :: nat) \<and> (of_char c :: nat) \<le> 222 \<and> (of_char c :: nat) \<noteq> 215)")
    case True
    then have "char_of ((of_char c :: nat) + 32) = CHR ''r''"
      using h by (simp add: lower_char_def Let_def)
    then have "((of_char c :: nat) + 32) mod 256 = 114"
      by (simp add: char_of_eq_iff take_bit_eq_mod)
    with True have "(of_char c :: nat) = of_char CHR ''R''"
      by auto
    then have "c = CHR ''R''"
      by (simp only: of_char_eq_iff)
    then show ?thesis ..
  next
    case False
    then have "lower_char c = c"
      unfolding lower_char_def Let_def by (rule if_not_P)
    with h show ?thesis by simp
  qed
next
  assume "c = CHR ''r'' \<or> c = CHR ''R''"
  then show "lower_char c = CHR ''r''"
    by (auto simp: lower_char_def char_of_eq_iff)
qed

text \<open>
  C7: the counter is case-insensitive and counts the occurrences of \<open>r\<close> in the lowercased
  input: \<open>count_r("River") = 2\<close>, \<open>count_r("") = 0\<close>, \<open>count_r("RRrr") = 4\<close>, and for every
  input the result is the number of positions of the lowercased string that hold \<open>r\<close>,
  which is the number of positions of the input that hold \<open>r\<close> or \<open>R\<close>.
\<close>

theorem count_r_positions:
  "count_r ''River'' = 2 \<and> count_r '''' = 0 \<and> count_r ''RRrr'' = 4
   \<and> count_r t = int (card {i. i < length (lower t) \<and> lower t ! i = CHR ''r''})
   \<and> count_r t = int (card {i. i < length t \<and> (t ! i = CHR ''r'' \<or> t ! i = CHR ''R'')})"
proof -
  have a: "count_r ''River'' = 2"
    by (simp add: count_r_filter lower_def lower_char_def char_of_eq_iff)
  have b: "count_r '''' = 0"
    by (simp add: count_r_filter lower_def)
  have c: "count_r ''RRrr'' = 4"
    by (simp add: count_r_filter lower_def lower_char_def char_of_eq_iff)
  have d: "count_r t = int (card {i. i < length (lower t) \<and> lower t ! i = CHR ''r''})"
    by (simp add: count_r_filter length_filter_conv_card)
  have "{i. i < length (lower t) \<and> lower t ! i = CHR ''r''}
      = {i. i < length t \<and> (t ! i = CHR ''r'' \<or> t ! i = CHR ''R'')}"
    by (auto simp: lower_def lower_char_eq_r)
  with d have e: "count_r t = int (card {i. i < length t \<and> (t ! i = CHR ''r'' \<or> t ! i = CHR ''R'')})"
    by simp
  from a b c d e show ?thesis by blast
qed

text \<open>
  C10: the counter is a monoid homomorphism from strings under concatenation to the
  naturals under addition, and it never exceeds the length of its input.
\<close>

theorem count_r_append:
  "count_r '''' = 0 \<and> count_r (a @ b) = count_r a + count_r b
   \<and> 0 \<le> count_r t \<and> count_r t \<le> int (length t)"
proof -
  have "length (filter (\<lambda>x. x = CHR ''r'') (lower t)) \<le> length (lower t)"
    by (rule length_filter_le)
  then have "count_r t \<le> int (length t)"
    by (simp add: count_r_filter lower_def)
  moreover have "count_r (a @ b) = count_r a + count_r b"
    by (simp add: count_r_filter lower_def)
  moreover have "count_r '''' = 0"
    by (simp add: count_r_filter lower_def)
  moreover have "0 \<le> count_r t"
    by (simp add: count_r_def)
  ultimately show ?thesis by blast
qed

section \<open>Reading files\<close>

lemma read_file_name_error:
  "normalize_path h p = Inr fp
   \<Longrightarrow> read_file h p
       = Inl (HTTPException 500
           (''Error reading file '' @ fp @ '': '' @ name_error ''is_path_allowed''))"
  by (simp add: read_file_def read_file_with_def is_path_allowed_def)

lemma read_file_rejected:
  "normalize_path h p = Inl e \<Longrightarrow> read_file h p = Inl e"
  by (simp add: read_file_def read_file_with_def)

lemma demo_documents2:
  "normalize_path demo_host ''/home/user/Documents2/secret.txt''
     = Inr ''/home/user/Documents2/secret.txt''"
  by code_simp

lemma demo_missing:
  "normalize_path demo_host ''/home/user/Documents/missing.txt''
     = Inr ''/home/user/Documents/missing.txt''"
  by code_simp

lemma demo_directory:
  "normalize_path demo_host ''/home/user/Documents'' = Inr ''/home/user/Documents''"
  by code_simp

lemma demo_notes:
  "normalize_path demo_host ''/home/user/Documents/notes.txt''
     = Inr ''/home/user/Documents/notes.txt''"
  by code_simp

lemma demo_missing_absent: "\<not> exists demo_host ''/home/user/Documents/missing.txt''"
  by code_simp

lemma demo_directory_exists:
  "exists demo_host ''/home/user/Documents'' \<and> \<not> isfile demo_host ''/home/user/Documents''"
  by code_simp

lemma demo_notes_file:
  "isfile demo_host ''/home/user/Documents/notes.txt''
   \<and> read_bytes demo_host ''/home/user/Documents/notes.txt''
       = [0x52, 0x69, 0x76, 0x65, 0x72, 0x0A]"
  by code_simp

text \<open>
  C4: the claim is that reading a validated path that does not exist gives status 404,
  and one that exists but is no regular file gives status 400, never 500. In the code
  both give status 500: the call of \<open>is_path_allowed\<close> comes first and raises
  \<open>NameError\<close>. The theorem evaluates \<open>read_file\<close> on a missing file and on a directory
  of the concrete process.
\<close>

theorem read_file_missing_is_500:
  "\<not> exists demo_host ''/home/user/Documents/missing.txt''
   \<and> read_file demo_host ''/home/user/Documents/missing.txt''
       = Inl (HTTPException 500
           (''Error reading file /home/user/Documents/missing.txt: name ''
            @ [CHR 0x27] @ ''is_path_allowed'' @ [CHR 0x27] @ '' is not defined''))
   \<and> exists demo_host ''/home/user/Documents''
   \<and> \<not> isfile demo_host ''/home/user/Documents''
   \<and> read_file demo_host ''/home/user/Documents''
       = Inl (HTTPException 500
           (''Error reading file /home/user/Documents: name ''
            @ [CHR 0x27] @ ''is_path_allowed'' @ [CHR 0x27] @ '' is not defined''))"
  using demo_missing_absent demo_directory_exists
    read_file_name_error [OF demo_missing] read_file_name_error [OF demo_directory]
  by (simp add: name_error_def)

text \<open>
  C5: the claim is that reading a validated, existing, regular file of ASCII bytes
  returns its text. In the code the read fails with status 500 for the same reason as
  in C4. The theorem evaluates \<open>read_file\<close> on \<open>notes.txt\<close>.
\<close>

theorem read_file_ascii_is_500:
  "isfile demo_host ''/home/user/Documents/notes.txt''
   \<and> read_bytes demo_host ''/home/user/Documents/notes.txt''
       = [0x52, 0x69, 0x76, 0x65, 0x72, 0x0A]
   \<and> read_file demo_host ''/home/user/Documents/notes.txt''
       = Inl (HTTPException 500
           (''Error reading file /home/user/Documents/notes.txt: name ''
            @ [CHR 0x27] @ ''is_path_allowed'' @ [CHR 0x27] @ '' is not defined''))"
  using demo_notes_file read_file_name_error [OF demo_notes]
  by (simp add: name_error_def)

section \<open>The path validator\<close>

lemma normalize_path_eq:
  "normalize_path h p =
     (if list_ex (\<lambda>d. startswith (normal_form h p) d) (allowed_dirs h)
      then Inr (normal_form h p)
      else Inl (HTTPException 403
             ''File must be in Documents, Downloads, Desktop, or github directory''))"
  by (simp add: normalize_path_def normal_form_def Let_def)

lemma demo_allowed:
  "allowed_dirs demo_host =
     [''/home/user/Documents'', ''/home/user/Downloads'', ''/home/user/Desktop'',
      ''/home/user/github'']"
  by code_simp

lemma demo_outside: "normal_form demo_host ''/etc/passwd'' = ''/etc/passwd''"
  by code_simp

lemma demo_inside:
  "normalize_path demo_host ''$PROJECTS/../Documents/./notes.txt''
     = Inr ''/home/user/Documents/notes.txt''"
  by code_simp

lemma demo_relative: "normal_form demo_host ''main.py'' = ''/home/user/github/mcp-demo/main.py''"
  by code_simp

text \<open>
  C1: a raw path whose expanded, absolute, normalized form starts with no entry of the
  allowed directories is rejected with status 403, and every path that the validator
  returns is that normalized form and starts with one of the entries.
\<close>

theorem normalize_path_confined:
  "(\<not> list_ex (\<lambda>d. startswith (normal_form h p) d) (allowed_dirs h)
      \<longrightarrow> normalize_path h p = Inl (HTTPException 403
            ''File must be in Documents, Downloads, Desktop, or github directory''))
   \<and> (normalize_path h q = Inr v
      \<longrightarrow> v = normal_form h q \<and> list_ex (\<lambda>d. startswith v d) (allowed_dirs h))"
  by (auto simp: normalize_path_eq split: if_splits)

theorem normalize_path_confined_witness:
  "\<not> list_ex (\<lambda>d. startswith (normal_form demo_host ''/etc/passwd'') d) (allowed_dirs demo_host)
   \<and> normalize_path demo_host ''/etc/passwd'' = Inl (HTTPException 403
        ''File must be in Documents, Downloads, Desktop, or github directory'')
   \<and> normalize_path demo_host ''$PROJECTS/../Documents/./notes.txt''
        = Inr ''/home/user/Documents/notes.txt''
   \<and> list_ex (\<lambda>d. startswith ''/home/user/Documents/notes.txt'' d) (allowed_dirs demo_host)"
proof -
  have out: "\<not> list_ex (\<lambda>d. startswith (normal_form demo_host ''/etc/passwd'') d)
      (allowed_dirs demo_host)"
    by (simp add: demo_allowed demo_outside startswith_def)
  from out
    normalize_path_confined [of demo_host "''/etc/passwd''"
      "''$PROJECTS/../Documents/./notes.txt''" "''/home/user/Documents/notes.txt''"]
    demo_inside
  show ?thesis by blast
qed

lemma normalize_path_any_suffix:
  "normal_form h p = d @ rest \<Longrightarrow> d \<in> set (allowed_dirs h)
   \<Longrightarrow> normalize_path h p = Inr (d @ rest)"
proof -
  assume nf: "normal_form h p = d @ rest" and d: "d \<in> set (allowed_dirs h)"
  have "startswith (d @ rest) d"
    by (simp add: startswith_def)
  with d have "list_ex (\<lambda>e. startswith (d @ rest) e) (allowed_dirs h)"
    unfolding list_ex_iff by blast
  with nf show ?thesis
    by (simp add: normalize_path_eq)
qed

text \<open>
  C3: the claim is that a path which only shares a string prefix with an allowed
  directory, without a separator at the boundary, is rejected. The code accepts it:
  with \<open>/home/user/Documents\<close> allowed, a file under \<open>/home/user/Documents2\<close> passes the
  validator, although it lies in none of the allowed directories.
\<close>

theorem normalize_path_prefix_confusion:
  "allowed_dirs demo_host
     = [''/home/user/Documents'', ''/home/user/Downloads'', ''/home/user/Desktop'',
        ''/home/user/github'']
   \<and> normalize_path demo_host ''/home/user/Documents2/secret.txt''
       = Inr ''/home/user/Documents2/secret.txt''
   \<and> \<not> startswith ''/home/user/Documents2/secret.txt'' ''/home/user/Documents/''
   \<and> \<not> startswith ''/home/user/Documents2/secret.txt'' ''/home/user/Downloads/''
   \<and> \<not> startswith ''/home/user/Documents2/secret.txt'' ''/home/user/Desktop/''
   \<and> \<not> startswith ''/home/user/Documents2/secret.txt'' ''/home/user/github/''"
  using demo_allowed demo_documents2 by (simp add: startswith_def)

section \<open>Decoding\<close>

lemma decode_utf8_ascii:
  "\<forall>b\<in>set bs. unat b < 0x80 \<Longrightarrow> decode_utf8 bs = Some (map unat bs)"
  by (induction bs) (simp_all add: Let_def)

lemma try_encodings_total:
  "\<exists>e content. try_encodings encodings bs = Some (e, content)"
proof (cases "open_read Utf8 bs")
  case None
  then show ?thesis
    by (simp add: encodings_def open_read_def decode_latin1_def)
next
  case (Some content)
  then show ?thesis
    by (simp add: encodings_def)
qed

lemma try_encodings_ascii:
  "\<forall>b\<in>set bs. unat b < 0x80
   \<Longrightarrow> try_encodings encodings bs = Some (Utf8, universal_newlines (map unat bs))"
  by (simp add: encodings_def open_read_def decode_utf8_ascii)

lemma universal_newlines_plain:
  "13 \<notin> set cs \<Longrightarrow> universal_newlines cs = cs"
  by (induction cs rule: universal_newlines.induct) auto

text \<open>
  C6: the failure "could not read the file with any of the supported encodings" is
  unreachable. Latin-1 decodes every sequence of bytes, so the loop over the encodings
  always returns a text, and \<open>read_file\<close> never returns that error, whatever
  \<open>is_path_allowed\<close> is bound to.
\<close>

theorem undecodable_unreachable:
  "decode Latin1 bs = Some (map unat bs)
   \<and> (\<exists>e content. try_encodings encodings bs = Some (e, content))
   \<and> read_file_with binding h p
       \<noteq> Inl (HTTPException 400
             (''Could not read file '' @ fp @ '' with any of the supported encodings''))
   \<and> read_file h p
       \<noteq> Inl (HTTPException 400
             (''Could not read file '' @ fp @ '' with any of the supported encodings''))"
proof -
  have total: "\<exists>e content. try_encodings encodings bs = Some (e, content)" for bs
    by (rule try_encodings_total)
  have body: "read_file_with b h p
       \<noteq> Inl (HTTPException 400
             (''Could not read file '' @ fp @ '' with any of the supported encodings''))" for b
  proof (cases "normalize_path h p")
    case (Inl e)
    then have "e = HTTPException 403
        ''File must be in Documents, Downloads, Desktop, or github directory''"
      by (simp add: normalize_path_eq split: if_splits)
    with Inl show ?thesis
      by (simp add: read_file_with_def)
  next
    case (Inr file_path)
    obtain e content where
      "try_encodings encodings (read_bytes h (abspath h file_path)) = Some (e, content)"
      using total by blast
    with Inr show ?thesis
      by (simp add: read_file_with_def Let_def split: option.splits)
  qed
  from total body show ?thesis
    by (simp add: decode_latin1_def read_file_def)
qed

section \<open>The body of read_file once is_path_allowed is bound\<close>

text \<open>
  With any function bound to \<open>is_path_allowed\<close> that admits the path, the checks that
  \<open>read_file\<close> spells out behave as C4 and C5 describe: existence first, then the
  regular-file check, then the first encoding for ASCII content.
\<close>

lemma read_file_with_not_found:
  "normalize_path h p = Inr fp \<Longrightarrow> allowed (abspath h fp) \<Longrightarrow> \<not> exists h (abspath h fp)
   \<Longrightarrow> \<exists>d. read_file_with (Some allowed) h p = Inl (HTTPException 404 d)"
  by (simp add: read_file_with_def Let_def)

lemma read_file_with_not_a_file:
  "normalize_path h p = Inr fp \<Longrightarrow> allowed (abspath h fp) \<Longrightarrow> exists h (abspath h fp)
   \<Longrightarrow> \<not> isfile h (abspath h fp)
   \<Longrightarrow> read_file_with (Some allowed) h p
       = Inl (HTTPException 400 (''Path is not a file: '' @ fp))"
  by (simp add: read_file_with_def Let_def)

lemma read_file_with_ascii:
  "normalize_path h p = Inr fp \<Longrightarrow> allowed (abspath h fp) \<Longrightarrow> exists h (abspath h fp)
   \<Longrightarrow> isfile h (abspath h fp) \<Longrightarrow> \<forall>b\<in>set (read_bytes h (abspath h fp)). unat b < 0x80
   \<Longrightarrow> read_file_with (Some allowed) h p
       = Inr (universal_newlines (map unat (read_bytes h (abspath h fp))))"
  by (simp add: read_file_with_def Let_def try_encodings_ascii)

section \<open>The tool endpoint\<close>

lemma falsy_empty [simp]: "falsy (Some [])"
  by (simp add: falsy_def)

lemma falsy_None [simp]: "falsy None"
  by (simp add: falsy_def)

lemma falsy_Some: "falsy (Some s) = (s = [])"
  by (simp add: falsy_def)

text \<open>
  C9: at the tool endpoint a required parameter that is present but empty is treated
  as missing: \<open>read_file\<close> with an empty \<open>file_path\<close> and \<open>count_r\<close> with an empty \<open>text\<close>
  fail with status 400 and the message that the parameter is required; the tool is not
  called.
\<close>

theorem execute_tool_empty_parameter:
  "(parameters ''file_path'' = Some ''''
      \<longrightarrow> execute_tool h ''read_file'' parameters
          = Inl (HTTPException 400 ''file_path parameter is required''))
   \<and> (parameters ''text'' = Some ''''
      \<longrightarrow> execute_tool h ''count_r'' parameters
          = Inl (HTTPException 400 ''text parameter is required''))"
  by (simp add: execute_tool_def Let_def)

theorem execute_tool_empty_parameter_witness:
  "empty_path_request ''file_path'' = Some ''''
   \<and> execute_tool demo_host ''read_file'' empty_path_request
       = Inl (HTTPException 400 ''file_path parameter is required'')
   \<and> empty_text_request ''text'' = Some ''''
   \<and> execute_tool demo_host ''count_r'' empty_text_request
       = Inl (HTTPException 400 ''text parameter is required'')"
proof -
  have a: "empty_path_request ''file_path'' = Some ''''"
    by (simp add: empty_path_request_def)
  have b: "empty_text_request ''text'' = Some ''''"
    by (simp add: empty_text_request_def)
  from a b
    execute_tool_empty_parameter [of empty_path_request demo_host]
    execute_tool_empty_parameter [of empty_text_request demo_host]
  show ?thesis by blast
qed

section \<open>posixpath.normpath is idempotent\<close>

lemma startswith_Nil [simp]: "startswith s [] = True"
  by (simp add: startswith_def)

lemma startswith_Nil_Cons [simp]: "startswith [] (d # p) = False"
  by (simp add: startswith_def)

lemma startswith_Cons [simp]: "startswith (c # s) (d # p) = (c = d \<and> startswith s p)"
  by (simp add: startswith_def)

lemma split_not_Nil [simp]: "split sep s \<noteq> []"
  by (induction s) (auto simp: Let_def)

lemma split_no_sep: "c \<in> set (split sep s) \<Longrightarrow> sep \<notin> set c"
proof (induction s arbitrary: c)
  case Nil
  then show ?case by simp
next
  case (Cons a s)
  obtain w ws where ws: "split sep s = w # ws"
    by (cases "split sep s") simp_all
  with Cons show ?case
    by (auto simp: Let_def split: if_splits)
qed

lemma split_replicate: "split sep (replicate n sep @ s) = replicate n [] @ split sep s"
  by (induction n) (simp_all add: Let_def)

lemma split_plain: "sep \<notin> set w \<Longrightarrow> split sep w = [w]"
  by (induction w) (auto simp: Let_def)

lemma split_piece: "sep \<notin> set w \<Longrightarrow> split sep (w @ sep # s) = w # split sep s"
  by (induction w) (auto simp: Let_def)

lemma split_join:
  "cs \<noteq> [] \<Longrightarrow> \<forall>c\<in>set cs. sep \<notin> set c \<Longrightarrow> split sep (join [sep] cs) = cs"
proof (induction cs)
  case Nil
  then show ?case by simp
next
  case (Cons w ws)
  show ?case
  proof (cases ws)
    case Nil
    with Cons.prems show ?thesis by (simp add: split_plain)
  next
    case (Cons v vs)
    with Cons.IH Cons.prems have "split sep (join [sep] (v # vs)) = v # vs"
      by simp
    with Cons Cons.prems show ?thesis
      by (simp add: split_piece)
  qed
qed

lemma step_skip [simp]: "normpath_step b acc [] = acc"
  by (simp add: normpath_step_def)

lemma foldl_step_empties:
  "foldl (normpath_step b) acc (replicate n [] @ xs) = foldl (normpath_step b) acc xs"
  by (induction n) simp_all

lemma last_dropWhile: "dropWhile P xs \<noteq> [] \<Longrightarrow> last (dropWhile P xs) = last xs"
  by (induction xs) (auto split: if_splits)

lemma set_dropWhile_butlast: "set (dropWhile P (butlast xs)) \<subseteq> set (dropWhile P xs)"
  by (induction xs) (auto split: if_splits dest: in_set_butlastD)

lemma comps_ok_Nil [simp]: "comps_ok b []"
  by (simp add: comps_ok_def)

lemma all_dotdot:
  assumes "d \<notin> set (dropWhile (\<lambda>c. c = d) acc)" "acc \<noteq> []" "last acc = d"
  shows "\<forall>x\<in>set acc. x = d"
proof (rule ccontr)
  assume "\<not> (\<forall>x\<in>set acc. x = d)"
  then have ne: "dropWhile (\<lambda>c. c = d) acc \<noteq> []"
    by (simp add: dropWhile_eq_Nil_conv)
  then have "last (dropWhile (\<lambda>c. c = d) acc) = d"
    using assms(3) by (simp add: last_dropWhile)
  with ne have "d \<in> set (dropWhile (\<lambda>c. c = d) acc)"
    using last_in_set by metis
  with assms(1) show False by simp
qed

lemma step_dot: "normpath_step b acc ''.'' = acc"
  by (simp add: normpath_step_def)

lemma step_plain:
  "c \<noteq> [] \<Longrightarrow> c \<noteq> ''.'' \<Longrightarrow> c \<noteq> dotdot \<Longrightarrow> normpath_step b acc c = acc @ [c]"
  by (simp add: normpath_step_def dotdot_def)

lemma step_dotdot:
  "normpath_step b acc dotdot =
     (if (\<not> b \<and> acc = []) \<or> (acc \<noteq> [] \<and> last acc = dotdot) then acc @ [dotdot]
      else if acc \<noteq> [] then butlast acc else acc)"
  by (simp add: normpath_step_def dotdot_def)

lemma dotdot_facts: "dotdot \<noteq> []" "dotdot \<noteq> ''.''" "CHR ''/'' \<notin> set dotdot"
  by (simp_all add: dotdot_def)

lemma comps_ok_butlast: "comps_ok b acc \<Longrightarrow> comps_ok b (butlast acc)"
proof -
  assume ok: "comps_ok b acc"
  have sub: "set (butlast acc) \<subseteq> set acc"
    by (auto dest: in_set_butlastD)
  have "set (dropWhile (\<lambda>c. c = dotdot) (butlast acc))
      \<subseteq> set (dropWhile (\<lambda>c. c = dotdot) acc)"
    by (rule set_dropWhile_butlast)
  with ok sub show ?thesis
    unfolding comps_ok_def by (cases b) auto
qed

lemma comps_ok_snoc_plain:
  assumes "comps_ok b acc" "c \<noteq> []" "c \<noteq> ''.''" "c \<noteq> dotdot" "CHR ''/'' \<notin> set c"
  shows "comps_ok b (acc @ [c])"
proof (cases b)
  case True
  with assms show ?thesis by (simp add: comps_ok_def)
next
  case False
  have "dotdot \<notin> set (dropWhile (\<lambda>c. c = dotdot) (acc @ [c]))"
  proof (cases "\<forall>x\<in>set acc. x = dotdot")
    case True
    then have "dropWhile (\<lambda>c. c = dotdot) (acc @ [c]) = [c]"
      using assms(4) by (simp add: dropWhile_append)
    with assms(4) show ?thesis by simp
  next
    case nall: False
    then have "dropWhile (\<lambda>c. c = dotdot) (acc @ [c])
        = dropWhile (\<lambda>c. c = dotdot) acc @ [c]"
      by (simp add: dropWhile_append)
    with assms(1) assms(4) False show ?thesis by (simp add: comps_ok_def)
  qed
  with assms False show ?thesis by (simp add: comps_ok_def)
qed

lemma comps_ok_snoc_dotdot:
  assumes "comps_ok False acc" "acc = [] \<or> last acc = dotdot"
  shows "comps_ok False (acc @ [dotdot])"
proof -
  have "\<forall>x\<in>set acc. x = dotdot"
  proof (cases "acc = []")
    case True
    then show ?thesis by simp
  next
    case False
    with assms(2) have "last acc = dotdot" by simp
    with False assms(1) show ?thesis
      by (intro all_dotdot) (simp_all add: comps_ok_def)
  qed
  then have "dropWhile (\<lambda>c. c = dotdot) (acc @ [dotdot]) = []"
    by (simp add: dropWhile_eq_Nil_conv)
  with assms(1) show ?thesis
    by (simp add: comps_ok_def dotdot_facts)
qed

lemma step_ok:
  assumes ok: "comps_ok b acc" and c: "CHR ''/'' \<notin> set c"
  shows "comps_ok b (normpath_step b acc c)"
proof -
  consider "c = []" | "c = ''.''" | "c = dotdot" | "c \<noteq> []" "c \<noteq> ''.''" "c \<noteq> dotdot"
    by blast
  then show ?thesis
  proof cases
    case 1
    with ok show ?thesis by simp
  next
    case 2
    with ok show ?thesis by (simp add: step_dot)
  next
    case 4
    with ok c show ?thesis by (simp add: step_plain comps_ok_snoc_plain)
  next
    case 3
    show ?thesis
    proof (cases b)
      case True
      with ok have "dotdot \<notin> set acc" by (simp add: comps_ok_def)
      then have "acc \<noteq> [] \<Longrightarrow> last acc \<noteq> dotdot"
        using last_in_set by metis
      with True have "normpath_step b acc dotdot = (if acc \<noteq> [] then butlast acc else acc)"
        by (auto simp: step_dotdot)
      with ok 3 show ?thesis by (simp add: comps_ok_butlast)
    next
      case False
      show ?thesis
      proof (cases "acc = [] \<or> last acc = dotdot")
        case True
        with False have "normpath_step b acc dotdot = acc @ [dotdot]"
          by (auto simp: step_dotdot)
        with ok 3 True False show ?thesis by (simp add: comps_ok_snoc_dotdot)
      next
        case nd: False
        with False have "normpath_step b acc dotdot = butlast acc"
          by (auto simp: step_dotdot)
        with ok 3 show ?thesis by (simp add: comps_ok_butlast)
      qed
    qed
  qed
qed

lemma foldl_step_ok:
  "comps_ok b acc \<Longrightarrow> \<forall>c\<in>set cs. CHR ''/'' \<notin> set c
   \<Longrightarrow> comps_ok b (foldl (normpath_step b) acc cs)"
  by (induction cs arbitrary: acc) (simp_all add: step_ok)

lemma comps_ok_split:
  "comps_ok b (xs @ y # ys) \<Longrightarrow> y \<noteq> [] \<and> y \<noteq> ''.'' \<and> comps_ok b ((xs @ [y]) @ ys)"
  by (simp add: comps_ok_def)

lemma foldl_step_fixed:
  "comps_ok b (xs @ ys) \<Longrightarrow> foldl (normpath_step b) xs ys = xs @ ys"
proof (induction ys arbitrary: xs)
  case Nil
  then show ?case by simp
next
  case (Cons y ys)
  from comps_ok_split [OF Cons.prems]
  have y: "y \<noteq> []" "y \<noteq> ''.''" and rest: "comps_ok b ((xs @ [y]) @ ys)"
    by simp_all
  have "normpath_step b xs y = xs @ [y]"
  proof (cases "y = dotdot")
    case False
    with y show ?thesis by (simp add: step_plain)
  next
    case True
    have nb: "\<not> b"
    proof
      assume b
      with Cons.prems have "dotdot \<notin> set (xs @ y # ys)" by (simp add: comps_ok_def)
      with True show False by simp
    qed
    have "\<forall>x\<in>set xs. x = dotdot"
    proof (rule ccontr)
      assume "\<not> (\<forall>x\<in>set xs. x = dotdot)"
      then have "dropWhile (\<lambda>c. c = dotdot) (xs @ y # ys)
          = dropWhile (\<lambda>c. c = dotdot) xs @ y # ys"
        by (auto simp: dropWhile_append)
      moreover from Cons.prems nb
      have "dotdot \<notin> set (dropWhile (\<lambda>c. c = dotdot) (xs @ y # ys))"
        by (simp add: comps_ok_def)
      ultimately show False using True by simp
    qed
    then have "xs = [] \<or> last xs = dotdot"
      using last_in_set by blast
    with True nb show ?thesis
      by (auto simp: step_dotdot)
  qed
  moreover have "foldl (normpath_step b) (xs @ [y]) ys = (xs @ [y]) @ ys"
    using rest by (rule Cons.IH)
  ultimately show ?case by simp
qed

lemma foldl_step_only_empties:
  "foldl (normpath_step b) acc (replicate n []) = acc"
  by (induction n) simp_all

lemma join_Nil_iff: "\<forall>c\<in>set cs. c \<noteq> [] \<Longrightarrow> join sep cs = [] \<longleftrightarrow> cs = []"
  by (induction sep cs rule: join.induct) auto

lemma join_hd:
  "cs \<noteq> [] \<Longrightarrow> hd cs \<noteq> [] \<Longrightarrow> join sep cs \<noteq> [] \<and> hd (join sep cs) = hd (hd cs)"
  by (induction sep cs rule: join.induct) auto

lemma join_not_slash:
  assumes "comps_ok b cs"
  shows "\<not> startswith (join ''/'' cs) ''/''"
proof (cases cs)
  case Nil
  then show ?thesis by simp
next
  case (Cons c cs')
  with assms have c: "c \<noteq> []" "CHR ''/'' \<notin> set c"
    by (simp_all add: comps_ok_def)
  with Cons have j: "join ''/'' cs \<noteq> []" "hd (join ''/'' cs) = hd c"
    using join_hd [of cs "''/''"] by simp_all
  from c have "hd c \<noteq> CHR ''/''"
    by (cases c) auto
  with j show ?thesis
    by (cases "join ''/'' cs") simp_all
qed

lemma normpath_of_joined:
  assumes ok: "comps_ok (n \<noteq> 0) cs" and n: "n \<le> 2"
    and ne: "replicate n CHR ''/'' @ join ''/'' cs \<noteq> []"
  shows "posix_normpath (replicate n CHR ''/'' @ join ''/'' cs)
           = replicate n CHR ''/'' @ join ''/'' cs"
proof -
  let ?j = "join ''/'' cs"
  let ?q = "replicate n CHR ''/'' @ ?j"
  have nosl: "\<not> startswith ?j ''/''"
    using ok by (rule join_not_slash)
  have init: "(if \<not> startswith ?q ''/'' then 0
               else if startswith ?q ''//'' \<and> \<not> startswith ?q ''///'' then 2
               else (1 :: nat)) = n"
  proof -
    from n consider "n = 0" | "n = 1" | "n = 2" by linarith
    then show ?thesis
    proof cases
      case 1
      with nosl show ?thesis by simp
    next
      case 2
      with nosl show ?thesis by simp
    next
      case 3
      then have "replicate n CHR ''/'' = ''//''"
        by (simp add: numeral_2_eq_2)
      with nosl 3 show ?thesis by simp
    qed
  qed
  have noslash: "\<forall>c\<in>set cs. CHR ''/'' \<notin> set c"
    using ok by (simp add: comps_ok_def)
  have sp: "foldl (normpath_step (n \<noteq> 0)) [] (split CHR ''/'' ?q) = cs"
  proof (cases "cs = []")
    case True
    then have "split CHR ''/'' ?q = replicate n [] @ [[]]"
      using split_replicate [of "CHR ''/''" n "[]"] by simp
    with True show ?thesis
      by (simp add: foldl_step_only_empties)
  next
    case False
    with noslash have "split CHR ''/'' ?j = cs"
      using split_join [of cs "CHR ''/''"] by simp
    then have "split CHR ''/'' ?q = replicate n [] @ cs"
      by (simp add: split_replicate)
    then have "foldl (normpath_step (n \<noteq> 0)) [] (split CHR ''/'' ?q)
        = foldl (normpath_step (n \<noteq> 0)) [] cs"
      by (simp add: foldl_step_only_empties)
    also have "\<dots> = cs"
      using ok foldl_step_fixed [of "n \<noteq> 0" "[]" cs] by simp
    finally show ?thesis .
  qed
  show ?thesis
    unfolding posix_normpath_def Let_def init sp using ne by simp
qed

lemma posix_normpath_dot: "posix_normpath ''.'' = ''.''"
  by code_simp

lemma posix_normpath_shape:
  "path \<noteq> [] \<Longrightarrow>
   \<exists>n cs. n \<le> 2 \<and> comps_ok (n \<noteq> 0) cs
     \<and> posix_normpath path
         = (if replicate n CHR ''/'' @ join ''/'' cs = [] then ''.''
            else replicate n CHR ''/'' @ join ''/'' cs)"
proof -
  assume ne: "path \<noteq> []"
  let ?n = "if \<not> startswith path ''/'' then 0
            else if startswith path ''//'' \<and> \<not> startswith path ''///'' then 2
            else (1 :: nat)"
  let ?cs = "foldl (normpath_step (?n \<noteq> 0)) [] (split CHR ''/'' path)"
  have "comps_ok (?n \<noteq> 0) ?cs"
    by (intro foldl_step_ok) (auto dest: split_no_sep)
  moreover have "?n \<le> 2" by simp
  moreover have "posix_normpath path
      = (if replicate ?n CHR ''/'' @ join ''/'' ?cs = [] then ''.''
         else replicate ?n CHR ''/'' @ join ''/'' ?cs)"
    using ne unfolding posix_normpath_def Let_def by (simp only: if_False)
  ultimately show ?thesis by blast
qed

lemma posix_normpath_idem: "posix_normpath (posix_normpath path) = posix_normpath path"
proof (cases "path = []")
  case True
  then show ?thesis
    by (simp add: posix_normpath_def [of "[]"] posix_normpath_dot)
next
  case False
  then obtain n cs where n: "n \<le> 2" and ok: "comps_ok (n \<noteq> 0) cs"
    and eq: "posix_normpath path
         = (if replicate n CHR ''/'' @ join ''/'' cs = [] then ''.''
            else replicate n CHR ''/'' @ join ''/'' cs)"
    using posix_normpath_shape by blast
  show ?thesis
  proof (cases "replicate n CHR ''/'' @ join ''/'' cs = []")
    case True
    with eq show ?thesis by (simp add: posix_normpath_dot)
  next
    case False
    with eq ok n show ?thesis
      by (simp add: normpath_of_joined posix_normpath_dot)
  qed
qed

section \<open>The validator against its specification\<close>

lemma normalize_path_refines_validate:
  "normalize_path (posix_host st) q = validate st q (allowed_dirs (posix_host st))"
  by (simp add: normalize_path_def validate_def posix_host_def posix_abspath_def Let_def
      posix_normpath_idem)

section \<open>The validator on a POSIX process\<close>















lemma repo_braced:
  "normalize_path (posix_host demo_repo) ''${REPO}/main.py''
     = Inr ''/home/user/github/mcp-demo/mcp-demo/main.py''"
  by code_simp




section \<open>The agent and the start of the server\<close>

lemma find_port_first:
  "\<not> is_port_in_use port \<Longrightarrow> find_port is_port_in_use (Suc attempts) port = Some port"
  by simp

lemma five: "(5 :: nat) = Suc 4"
  by simp

lemma startup_first_port:
  "\<not> is_port_in_use 8081
   \<Longrightarrow> startup env dotenv is_port_in_use = Serving 8081 (load_dotenv dotenv env)"
proof -
  assume "\<not> is_port_in_use 8081"
  then have "find_port is_port_in_use (Suc 4) 8081 = Some 8081"
    by (rule find_port_first)
  then show ?thesis
    unfolding startup_def Let_def five by (simp only: option.case)
qed

lemma process_error:
  "process acreate self prompt ctx parameters = Inl e
   \<Longrightarrow> \<exists>msg. e = Exception (''Error processing request: '' @ msg)"
  unfolding process_def Let_def by (auto split: sum.splits)

text \<open>
  C8, as claimed: constructing the agent succeeds whenever the credential is present,
  and its absence is a failure at startup. Construction fails on the environment that
  sets \<open>OPENAI_API_KEY\<close> to the empty string, and with no credential at all and port
  8081 free the server starts and serves.
\<close>

theorem MCPAgent_init_empty_key:
  "empty_key_env ''OPENAI_API_KEY'' = Some ''''
   \<and> MCPAgent_init empty_key_env
       = Inl (ValueError ''OPENAI_API_KEY environment variable not set'')
   \<and> unset_env ''OPENAI_API_KEY'' = None
   \<and> startup unset_env unset_env no_port_in_use = Serving 8081 unset_env"
proof -
  have "\<not> no_port_in_use 8081"
    by (simp add: no_port_in_use_def)
  then have "startup unset_env unset_env no_port_in_use
      = Serving 8081 (load_dotenv unset_env unset_env)"
    by (rule startup_first_port)
  then show ?thesis
    by (simp add: empty_key_env_def MCPAgent_init_def Let_def unset_env_def load_dotenv_def)
qed

text \<open>
  C8, amended: constructing the agent fails with \<open>ValueError\<close> whenever the credential
  is absent from the environment or empty, and succeeds, storing the credential in the
  agent and in \<open>openai.api_key\<close>, whenever it is present and not empty. The check is
  made by the constructor only. Starting the server does not construct the agent, so
  the server starts whether or not the credential is set; and the absence is never
  deferred to a per-request error: no agent exists without a credential, and the
  agent's per-request method \<open>process\<close> never raises that error.
\<close>

theorem MCPAgent_init_credential:
  "(env ''OPENAI_API_KEY'' = None \<or> env ''OPENAI_API_KEY'' = Some ''''
      \<longrightarrow> MCPAgent_init env = Inl (ValueError ''OPENAI_API_KEY environment variable not set''))
   \<and> (env ''OPENAI_API_KEY'' = Some k \<and> k \<noteq> ''''
      \<longrightarrow> MCPAgent_init env = Inr (\<lparr> api_key = k \<rparr>, k))
   \<and> (MCPAgent_init env = Inr (agent, openai_key)
      \<longrightarrow> api_key agent \<noteq> '''' \<and> env ''OPENAI_API_KEY'' = Some (api_key agent)
          \<and> openai_key = api_key agent)
   \<and> (\<not> is_port_in_use 8081
      \<longrightarrow> startup env dotenv is_port_in_use = Serving 8081 (load_dotenv dotenv env))
   \<and> process acreate self prompt context parameters \<noteq> Inl (ValueError msg)"
proof -
  have init: "(env ''OPENAI_API_KEY'' = None \<or> env ''OPENAI_API_KEY'' = Some ''''
      \<longrightarrow> MCPAgent_init env = Inl (ValueError ''OPENAI_API_KEY environment variable not set''))
   \<and> (env ''OPENAI_API_KEY'' = Some k \<and> k \<noteq> ''''
      \<longrightarrow> MCPAgent_init env = Inr (\<lparr> api_key = k \<rparr>, k))
   \<and> (MCPAgent_init env = Inr (agent, openai_key)
      \<longrightarrow> api_key agent \<noteq> '''' \<and> env ''OPENAI_API_KEY'' = Some (api_key agent)
          \<and> openai_key = api_key agent)"
    by (auto simp: MCPAgent_init_def Let_def falsy_def split: option.splits if_splits)
  have start: "\<not> is_port_in_use 8081
      \<longrightarrow> startup env dotenv is_port_in_use = Serving 8081 (load_dotenv dotenv env)"
    by (rule impI) (rule startup_first_port)
  have request: "process acreate self prompt context parameters \<noteq> Inl (ValueError msg)"
    using process_error [of acreate self prompt "context" parameters "ValueError msg"]
    by blast
  from init start request show ?thesis by blast
qed

theorem MCPAgent_init_credential_witness:
  "unset_env ''OPENAI_API_KEY'' = None
   \<and> MCPAgent_init unset_env = Inl (ValueError ''OPENAI_API_KEY environment variable not set'')
   \<and> key_env ''OPENAI_API_KEY'' = Some ''sk-test'' \<and> ''sk-test'' \<noteq> ''''
   \<and> MCPAgent_init key_env = Inr (\<lparr> api_key = ''sk-test'' \<rparr>, ''sk-test'')
   \<and> api_key \<lparr> api_key = ''sk-test'' \<rparr> \<noteq> ''''
   \<and> \<not> no_port_in_use 8081
   \<and> startup unset_env key_env no_port_in_use = Serving 8081 (load_dotenv key_env unset_env)"
proof -
  have a: "key_env ''OPENAI_API_KEY'' = Some ''sk-test'' \<and> ''sk-test'' \<noteq> ''''"
    by (simp add: key_env_def)
  have b: "MCPAgent_init key_env = Inr (\<lparr> api_key = ''sk-test'' \<rparr>, ''sk-test'')"
    using a MCPAgent_init_credential [where env = key_env and k = "''sk-test''"] by blast
  have c: "api_key \<lparr> api_key = ''sk-test'' \<rparr> \<noteq> ''''"
    using b MCPAgent_init_credential [where env = key_env
        and agent = "\<lparr> api_key = ''sk-test'' \<rparr>" and openai_key = "''sk-test''"]
    by blast
  have d: "unset_env ''OPENAI_API_KEY'' = None"
    by (simp add: unset_env_def)
  have e: "MCPAgent_init unset_env
      = Inl (ValueError ''OPENAI_API_KEY environment variable not set'')"
    using d MCPAgent_init_credential [where env = unset_env] by blast
  have f: "\<not> no_port_in_use 8081"
    by (simp add: no_port_in_use_def)
  have g: "startup unset_env key_env no_port_in_use
      = Serving 8081 (load_dotenv key_env unset_env)"
    using f MCPAgent_init_credential [where is_port_in_use = no_port_in_use
        and env = unset_env and dotenv = key_env]
    by blast
  from a b c d e f g show ?thesis by simp
qed

end
